theory Spec2Isabelle
  imports Main "HOL-Library.Word"
begin

section \<open>Machine types and undefined behaviour\<close>

text \<open>
  The sketches are C++ for an Arduino-class board. \<open>uint8_t\<close> and \<open>uint32_t\<close> are
  words of that width, so \<open>+\<close> and \<open>-\<close> wrap and \<open><\<close> compares unsigned values.
  The C \<open>int\<close> of \<open>action_num\<close> is kept as a mathematical integer: the code only
  compares it and subtracts one from it, and the subtraction leaves the range of
  \<open>int\<close> only at the smallest value, where C gives it no meaning either.
\<close>

type_synonym u8 = "8 word"
type_synonym u32 = "32 word"

text \<open>
  C gives no meaning to an array access outside the array. Each such access of the
  source is a branch of the model that stops with a \<open>fault\<close> naming the indices used.
\<close>

datatype fault =
  TableIndex int nat nat
  | BufferIndex nat

definition bind_fault :: "fault + 'a \<Rightarrow> ('a \<Rightarrow> fault + 'b) \<Rightarrow> fault + 'b" where
  "bind_fault m f = (case m of Inl e \<Rightarrow> Inl e | Inr v \<Rightarrow> f v)"

section \<open>The action player of \<open>uhand_actions/uhand_servo.cpp\<close>\<close>

text \<open>
  \<open>actions.h\<close>, which declares the table \<open>action\<close> and the bound \<open>action_count\<close>, is
  not part of the sources at hand. Both are parameters of the model: the table as
  rows of frames of bytes, \<open>action_count\<close> as a signed integer (the comparison
  \<open>action_num <= action_count\<close> is then the signed one). A read is defined only
  inside the lists.
\<close>

type_synonym action_table = "u8 list list list"

definition table_read :: "action_table \<Rightarrow> int \<Rightarrow> nat \<Rightarrow> nat \<Rightarrow> fault + u8" where
  "table_read action r f c =
     (if 0 \<le> r \<and> r < int (length action)
         \<and> f < length (action ! nat r)
         \<and> c < length (action ! nat r ! f)
      then Inr (action ! nat r ! f ! c)
      else Inl (TableIndex r f c))"

text \<open>
  The object: its two members, and the four function-local statics of
  \<open>action_task\<close>, which persist between calls.
\<close>

record HW_ACTION_CTL =
  extended_func_angles :: "u8 list"
  action_num :: int
  last_tick :: u32
  step :: u8
  num :: u8
  delay_count :: u8

definition HW_ACTION_CTL_init :: HW_ACTION_CTL where
  "HW_ACTION_CTL_init =
     \<lparr>extended_func_angles = [0, 0, 0, 0, 0, 90], action_num = 0,
      last_tick = 0, step = 0, num = 0, delay_count = 0\<rparr>"

definition action_set :: "HW_ACTION_CTL \<Rightarrow> int \<Rightarrow> HW_ACTION_CTL" where
  "action_set s n = s\<lparr>action_num := n\<rparr>"

definition action_state_get :: "HW_ACTION_CTL \<Rightarrow> int" where
  "action_state_get s = action_num s"

text \<open>
  \<open>action_task\<close> calls \<open>millis()\<close> twice, once in the gate and once to store the
  tick; \<open>t_gate\<close> and \<open>t_store\<close> are the two readings. All six cells of
  \<open>extended_func_angles\<close> are assigned in the APPLY branch, so the new array is
  the list of the six values read.
\<close>

definition action_task ::
  "action_table \<Rightarrow> int \<Rightarrow> u32 \<Rightarrow> u32 \<Rightarrow> HW_ACTION_CTL \<Rightarrow> fault + HW_ACTION_CTL" where
  "action_task action action_count t_gate t_store s =
     (if action_num s \<noteq> 0 \<and> action_num s \<le> action_count then
        if t_gate - last_tick s < 100 then Inr s
        else
          let s1 = s\<lparr>last_tick := t_store\<rparr>;
              r = action_num s1 - 1;
              f = unat (num s1)
          in
          if step s1 = 0 then
            bind_fault (table_read action r f 0) (\<lambda>flag.
              if flag \<noteq> 0 then
                bind_fault (table_read action r f 1) (\<lambda>a0.
                bind_fault (table_read action r f 2) (\<lambda>a1.
                bind_fault (table_read action r f 3) (\<lambda>a2.
                bind_fault (table_read action r f 4) (\<lambda>a3.
                bind_fault (table_read action r f 5) (\<lambda>a4.
                bind_fault (table_read action r f 6) (\<lambda>a5.
                  Inr (s1\<lparr>extended_func_angles := [a0, a1, a2, a3, a4, a5],
                          step := 1\<rparr>)))))))
              else Inr (s1\<lparr>num := 0, action_num := 0\<rparr>))
          else if step s1 = 1 then
            let s2 = s1\<lparr>delay_count := delay_count s1 + 1\<rparr> in
            if delay_count s2 > 2
            then Inr (s2\<lparr>num := num s2 + 1, delay_count := 0, step := 0\<rparr>)
            else Inr s2
          else Inr (s1\<lparr>step := 0\<rparr>)
      else Inr s)"

section \<open>The single-pose player of \<open>uhand_actions_simple/uhand_servo.cpp\<close>\<close>

text \<open>
  Here \<open>action\<close> has two dimensions. The function declares the same four statics
  and never touches them; \<open>action_set\<close> and \<open>action_state_get\<close> are as above.
\<close>

type_synonym pose_table = "u8 list list"

definition pose_read :: "pose_table \<Rightarrow> int \<Rightarrow> nat \<Rightarrow> fault + u8" where
  "pose_read action r c =
     (if 0 \<le> r \<and> r < int (length action) \<and> c < length (action ! nat r)
      then Inr (action ! nat r ! c)
      else Inl (TableIndex r 0 c))"

definition action_task_simple ::
  "pose_table \<Rightarrow> int \<Rightarrow> HW_ACTION_CTL \<Rightarrow> fault + HW_ACTION_CTL" where
  "action_task_simple action action_count s =
     (if action_num s \<noteq> 0 \<and> action_num s \<le> action_count then
        let r = action_num s - 1 in
        bind_fault (pose_read action r 1) (\<lambda>a0.
        bind_fault (pose_read action r 2) (\<lambda>a1.
        bind_fault (pose_read action r 3) (\<lambda>a2.
        bind_fault (pose_read action r 4) (\<lambda>a3.
        bind_fault (pose_read action r 5) (\<lambda>a4.
        bind_fault (pose_read action r 6) (\<lambda>a5.
          Inr (s\<lparr>extended_func_angles := [a0, a1, a2, a3, a4, a5],
                 action_num := 0\<rparr>)))))))
      else Inr s)"

section \<open>Driving the player\<close>

text \<open>
  Columns 1 to 6 of a frame are its six joint angles; column 0 is the flag that is
  zero in the sentinel frame.
\<close>

definition frame_angles :: "u8 list \<Rightarrow> u8 list" where
  "frame_angles fr = take 6 (drop 1 fr)"

text \<open>
  The main loop calls \<open>action_task\<close> again and again. \<open>drive\<close> does so once for each
  pair of clock readings and returns the player as it is after each call; it stops
  at the first fault. \<open>gate_open\<close> says that on every one of these calls the gate
  lets the call through: the reading of the gate is at least 100 ticks after the tick
  stored by the call before.
\<close>

fun drive ::
  "action_table \<Rightarrow> int \<Rightarrow> (u32 \<times> u32) list \<Rightarrow> HW_ACTION_CTL \<Rightarrow> fault + HW_ACTION_CTL list" where
  "drive action action_count [] s = Inr []"
| "drive action action_count (c # cs) s =
     bind_fault (action_task action action_count (fst c) (snd c) s) (\<lambda>s'.
     bind_fault (drive action action_count cs s') (\<lambda>ss. Inr (s' # ss)))"

fun gate_open :: "u32 \<Rightarrow> (u32 \<times> u32) list \<Rightarrow> bool" where
  "gate_open t [] = True"
| "gate_open t (c # cs) = (\<not> fst c - t < 100 \<and> gate_open (snd c) cs)"

text \<open>Tables used in the examples below.\<close>

definition demo_table :: action_table where
  "demo_table = [[[1, 10, 20, 30, 40, 50, 60], [0, 0, 0, 0, 0, 0, 0]]]"

definition two_actions :: action_table where
  "two_actions =
     [[[1, 1, 2, 3, 4, 5, 6], [1, 7, 8, 9, 10, 11, 12], [0, 0, 0, 0, 0, 0, 0]],
      [[1, 10, 20, 30, 40, 50, 60], [0, 0, 0, 0, 0, 0, 0], [0, 0, 0, 0, 0, 0, 0]]]"

section \<open>The camera link of \<open>hw_esp32cam_ctl.cpp\<close>\<close>

text \<open>
  \<open>Wire\<close> and \<open>Serial\<close> are the board's libraries, outside the sources. The model
  keeps of them what the code can observe: for a register byte sent to the camera,
  the status \<open>Wire.endTransmission()\<close> returns and the bytes that
  \<open>Wire.available()\<close> and \<open>Wire.read()\<close> hand out after \<open>Wire.requestFrom\<close>. It
  records the operations issued on the bus and the characters printed. Within one
  call of the functions below no register is addressed twice, so a reply per
  register is as general as a reply per transaction.
\<close>

datatype wire_op = Transmit u8 u8 | RequestFrom u8 nat

record bus =
  end_status :: "u8 \<Rightarrow> u8"
  reply :: "u8 \<Rightarrow> u8 list"
  traffic :: "wire_op list"
  serial :: string

definition ESP32CAM_ADDR :: u8 where
  "ESP32CAM_ADDR = 0x52"

definition WireWriteByte :: "bus \<Rightarrow> u8 \<Rightarrow> bus \<times> bool" where
  "WireWriteByte w val =
     (let w1 = w\<lparr>traffic := traffic w @ [Transmit ESP32CAM_ADDR val]\<rparr>
      in if end_status w1 val \<noteq> 0 then (w1, False) else (w1, True))"

text \<open>
  The \<open>while (Wire.available())\<close> loop of \<open>WireReadDataArray\<close>, by recursion on the
  bytes still available. \<open>i\<close> is an \<open>unsigned char\<close>, \<open>len\<close> an \<open>unsigned int\<close>;
  \<open>val[i]\<close> beyond the buffer handed in is a fault.
\<close>

fun WireReadDataArray_loop :: "u8 list \<Rightarrow> u8 \<Rightarrow> nat \<Rightarrow> u8 list \<Rightarrow> fault + int \<times> u8 list" where
  "WireReadDataArray_loop [] i len val = Inr (uint i, val)"
| "WireReadDataArray_loop (b # bs) i len val =
     (if len \<le> unat i then Inr (- 1, val)
      else if unat i < length val
        then WireReadDataArray_loop bs (i + 1) len (val[unat i := b])
        else Inl (BufferIndex (unat i)))"

definition WireReadDataArray ::
  "bus \<Rightarrow> u8 \<Rightarrow> u8 list \<Rightarrow> nat \<Rightarrow> fault + bus \<times> int \<times> u8 list" where
  "WireReadDataArray w reg val len =
     (case WireWriteByte w reg of
        (w1, ok) \<Rightarrow>
          if \<not> ok then Inr (w1, - 1, val)
          else
            let w2 = w1\<lparr>traffic := traffic w1 @ [RequestFrom ESP32CAM_ADDR len]\<rparr> in
            bind_fault (WireReadDataArray_loop (reply w2 reg) 0 len val) (\<lambda>(n, val').
              Inr (w2, n, val')))"

text \<open>
  \<open>face_info\<close> and \<open>color_info\<close> are local arrays without initialiser. What they
  hold before the read is the parameter \<open>junk\<close>, one byte per cell.
\<close>

definition CRLF :: string where
  "CRLF = [CHR 0x0D, CHR 0x0A]"

definition faceDetect :: "bus \<Rightarrow> (nat \<Rightarrow> u8) \<Rightarrow> fault + bus \<times> bool" where
  "faceDetect w junk =
     (let face_info = map junk [0..<4];
          w1 = w\<lparr>serial := serial w @ ''face ''\<rparr>
      in bind_fault (WireReadDataArray w1 0x01 face_info 4) (\<lambda>(w2, n, face_info).
           if n = 4 \<and> face_info ! 2 > 0
           then Inr (w2\<lparr>serial := serial w2 @ '' 1'' @ CRLF\<rparr>, True)
           else Inr (w2\<lparr>serial := serial w2 @ '' 0'' @ CRLF\<rparr>, False)))"

definition colorDetect :: "bus \<Rightarrow> (nat \<Rightarrow> u8) \<Rightarrow> fault + bus \<times> int" where
  "colorDetect w junk =
     (let color_info = [map junk [0..<4], map junk [4..<8], map junk [8..<12]] in
      bind_fault (WireReadDataArray w 0x00 (color_info ! 0) 4) (\<lambda>(w1, n, c0).
        if n = 4 \<and> c0 ! 2 > 0 then Inr (w1, 1)
        else
          bind_fault (WireReadDataArray w1 0x01 (color_info ! 1) 4) (\<lambda>(w2, n, c1).
            if n = 4 \<and> c1 ! 2 > 0 then Inr (w2, 2)
            else
              bind_fault (WireReadDataArray w2 0x02 (color_info ! 2) 4) (\<lambda>(w3, n, c2).
                if n = 4 \<and> c2 ! 2 > 0 then Inr (w3, 3)
                else Inr (w3, 0)))))"

text \<open>
  \<open>color_position\<close> writes through the caller's pointer, so the buffer is returned
  with the result. The sketch \<open>uhand_colors_clamp_esp32cam\<close> reads register
  \<open>0x01\<close>; \<open>uhand_colors_trace_esp32cam\<close> has the same function on register
  \<open>0x02\<close>, and the same \<open>colorDetect\<close> and read primitive.
\<close>

definition color_position :: "bus \<Rightarrow> u8 list \<Rightarrow> fault + bus \<times> bool \<times> u8 list" where
  "color_position w color_info =
     bind_fault (WireReadDataArray w 0x01 color_info 4) (\<lambda>(w1, n, color_info).
       if n = 4 \<and> color_info ! 2 > 0
       then Inr (w1, True, color_info)
       else Inr (w1, False, color_info))"

definition color_position_trace :: "bus \<Rightarrow> u8 list \<Rightarrow> fault + bus \<times> bool \<times> u8 list" where
  "color_position_trace w color_info =
     bind_fault (WireReadDataArray w 0x02 color_info 4) (\<lambda>(w1, n, color_info).
       if n = 4 \<and> color_info ! 2 > 0
       then Inr (w1, True, color_info)
       else Inr (w1, False, color_info))"

section \<open>What one read of the camera does\<close>

text \<open>
  The callers always read four bytes into a buffer of four. For such a read of
  register \<open>reg\<close>: \<open>read_ops\<close> are the operations it puts on the bus, \<open>read_count\<close> is
  the count \<open>WireReadDataArray\<close> returns, \<open>width_byte\<close> is byte 2 of the buffer
  afterwards, and \<open>read_buf\<close> is what it leaves in the buffer \<open>val\<close>. A channel is
  \<open>detected\<close> when the count is exactly 4 and the width byte is not zero, the test
  all three public functions apply.
\<close>

definition read_ops :: "bus \<Rightarrow> u8 \<Rightarrow> wire_op list" where
  "read_ops w reg =
     Transmit ESP32CAM_ADDR reg
       # (if end_status w reg = 0 then [RequestFrom ESP32CAM_ADDR 4] else [])"

definition read_count :: "bus \<Rightarrow> u8 \<Rightarrow> int" where
  "read_count w reg =
     (case WireReadDataArray w reg [0, 0, 0, 0] 4 of
        Inr (w', n, val) \<Rightarrow> n
      | Inl e \<Rightarrow> - 1)"

definition width_byte :: "bus \<Rightarrow> u8 \<Rightarrow> u8" where
  "width_byte w reg =
     (case WireReadDataArray w reg [0, 0, 0, 0] 4 of
        Inr (w', n, val) \<Rightarrow> val ! 2
      | Inl e \<Rightarrow> 0)"

definition detected :: "bus \<Rightarrow> u8 \<Rightarrow> bool" where
  "detected w reg = (read_count w reg = 4 \<and> width_byte w reg > 0)"

definition read_buf :: "bus \<Rightarrow> u8 \<Rightarrow> u8 list \<Rightarrow> u8 list" where
  "read_buf w reg val =
     (if end_status w reg \<noteq> 0 then val
      else take 4 (reply w reg) @ drop (length (reply w reg)) val)"

text \<open>Buses and tables used in the examples below.\<close>

definition echo_bus :: bus where
  "echo_bus = \<lparr>end_status = (\<lambda>reg. 0), reply = (\<lambda>reg. [5, 6, 7, 8]), traffic = [], serial = []\<rparr>"

definition short_reply_bus :: bus where
  "short_reply_bus =
     \<lparr>end_status = (\<lambda>reg. 0), reply = (\<lambda>reg. [1, 2]), traffic = [], serial = []\<rparr>"

definition no_width_bus :: bus where
  "no_width_bus =
     \<lparr>end_status = (\<lambda>reg. 0), reply = (\<lambda>reg. [1, 2, 0, 4]), traffic = [], serial = []\<rparr>"

definition no_junk :: "nat \<Rightarrow> u8" where
  "no_junk i = 0"

definition long_row_table :: action_table where
  "long_row_table = [replicate 256 [1, 0, 0, 0, 0, 0, 0] @ [[0, 0, 0, 0, 0, 0, 0]]]"

section \<open>Basic facts\<close>

lemma bind_fault_Inr [simp]: "bind_fault (Inr v) f = f v"
  by (simp add: bind_fault_def)

lemma bind_fault_Inl [simp]: "bind_fault (Inl e) f = Inl e"
  by (simp add: bind_fault_def)

lemma action_task_idle: "action_num s = 0 \<Longrightarrow> action_task action n t1 t2 s = Inr s"
  by (simp add: action_task_def)

lemma frame_angles_nth:
  assumes "7 \<le> length fr"
  shows "[fr ! 1, fr ! 2, fr ! 3, fr ! 4, fr ! 5, fr ! 6] = frame_angles fr"
proof (rule nth_equalityI)
  show "length [fr ! 1, fr ! 2, fr ! 3, fr ! 4, fr ! 5, fr ! 6] = length (frame_angles fr)"
    using assms by (simp add: frame_angles_def)
next
  fix i assume "i < length [fr ! 1, fr ! 2, fr ! 3, fr ! 4, fr ! 5, fr ! 6]"
  then have "i \<in> {0, 1, 2, 3, 4, 5}" by auto
  then show "[fr ! 1, fr ! 2, fr ! 3, fr ! 4, fr ! 5, fr ! 6] ! i = frame_angles fr ! i"
    using assms by (auto simp: frame_angles_def eval_nat_numeral)
qed

section \<open>The gate\<close>

text \<open>
  C4. A call to \<open>action_task\<close> made while \<open>millis() - last_tick < 100\<close> returns the
  player as it found it: \<open>last_tick\<close>, \<open>step\<close>, \<open>num\<close>, \<open>delay_count\<close>,
  \<open>action_num\<close> and \<open>extended_func_angles\<close> all keep their values, and no table
  entry is read. It holds with an action in progress and, the guard being outside
  the gate, without one too.
\<close>

theorem action_task_gate_closed:
  assumes "t_gate - last_tick s < 100"
  shows "action_task action action_count t_gate t_store s = Inr s"
  using assms by (simp add: action_task_def)

theorem action_task_gate_closed_witness:
  "(130 :: u32) - last_tick (action_set (HW_ACTION_CTL_init\<lparr>last_tick := 50\<rparr>) 1) < 100
   \<and> action_task [[[1, 10, 20, 30, 40, 50, 60], [0, 0, 0, 0, 0, 0, 0]]] 1 130 131
        (action_set (HW_ACTION_CTL_init\<lparr>last_tick := 50\<rparr>) 1)
      = Inr (action_set (HW_ACTION_CTL_init\<lparr>last_tick := 50\<rparr>) 1)"
proof -
  have g: "(130 :: u32) - last_tick (action_set (HW_ACTION_CTL_init\<lparr>last_tick := 50\<rparr>) 1) < 100"
    by (simp add: action_set_def HW_ACTION_CTL_init_def)
  from g action_task_gate_closed [OF g] show ?thesis by simp
qed

section \<open>Calls that pass the gate\<close>

lemma drive_idle:
  "action_num s = 0 \<Longrightarrow> drive action n ts s = Inr (replicate (length ts) s)"
  by (induction ts) (simp_all add: action_task_idle)

text \<open>The three kinds of call that pass the gate: APPLY on a frame, APPLY on the
  sentinel, and WAIT.\<close>

lemma gated_apply_call:
  assumes "1 \<le> action_num s" and "action_num s \<le> action_count"
    and "action_num s \<le> int (length action)"
    and "\<not> t_gate - last_tick s < 100" and "step s = 0"
    and "unat (num s) < length (action ! nat (action_num s - 1))"
    and "7 \<le> length (action ! nat (action_num s - 1) ! unat (num s))"
    and "action ! nat (action_num s - 1) ! unat (num s) ! 0 \<noteq> 0"
  shows "action_task action action_count t_gate t_store s =
     Inr (s\<lparr>last_tick := t_store,
            extended_func_angles :=
              frame_angles (action ! nat (action_num s - 1) ! unat (num s)),
            step := 1\<rparr>)"
  using assms frame_angles_nth [OF assms(7)]
  by (auto simp add: action_task_def Let_def table_read_def)

lemma gated_sentinel_call:
  assumes "1 \<le> action_num s" and "action_num s \<le> action_count"
    and "action_num s \<le> int (length action)"
    and "\<not> t_gate - last_tick s < 100" and "step s = 0"
    and "unat (num s) < length (action ! nat (action_num s - 1))"
    and "action ! nat (action_num s - 1) ! unat (num s) \<noteq> []"
    and "action ! nat (action_num s - 1) ! unat (num s) ! 0 = 0"
  shows "action_task action action_count t_gate t_store s =
     Inr (s\<lparr>last_tick := t_store, num := 0, action_num := 0\<rparr>)"
  using assms by (simp add: action_task_def Let_def table_read_def)

lemma gated_wait_call:
  assumes "action_num s \<noteq> 0" and "action_num s \<le> action_count"
    and "\<not> t_gate - last_tick s < 100" and "step s = 1"
  shows "action_task action action_count t_gate t_store s =
     Inr (if delay_count s + 1 > 2
          then s\<lparr>last_tick := t_store, delay_count := 0, num := num s + 1, step := 0\<rparr>
          else s\<lparr>last_tick := t_store, delay_count := delay_count s + 1\<rparr>)"
  using assms by (simp add: action_task_def Let_def)

text \<open>One frame: APPLY and three WAIT calls.\<close>

lemma drive_frame:
  assumes a: "1 \<le> action_num s" "action_num s \<le> action_count"
      "action_num s \<le> int (length action)"
    and st: "step s = 0" "delay_count s = 0"
    and fr: "unat (num s) < length (action ! nat (action_num s - 1))"
      "7 \<le> length (action ! nat (action_num s - 1) ! unat (num s))"
      "action ! nat (action_num s - 1) ! unat (num s) ! 0 \<noteq> 0"
    and g: "gate_open (last_tick s) (c1 # c2 # c3 # c4 # cs)"
  defines "ang \<equiv> frame_angles (action ! nat (action_num s - 1) ! unat (num s))"
  defines "s1 \<equiv> s\<lparr>last_tick := snd c1, extended_func_angles := ang, step := 1\<rparr>"
  defines "s4 \<equiv> s\<lparr>last_tick := snd c4, extended_func_angles := ang, num := num s + 1\<rparr>"
  shows "drive action action_count (c1 # c2 # c3 # c4 # cs) s =
     bind_fault (drive action action_count cs s4) (\<lambda>ss.
       Inr (s1 # s1\<lparr>last_tick := snd c2, delay_count := 1\<rparr>
               # s1\<lparr>last_tick := snd c3, delay_count := 2\<rparr> # s4 # ss))"
proof -
  have 1: "action_task action action_count (fst c1) (snd c1) s = Inr s1"
    unfolding s1_def ang_def using a st fr g by (simp add: gated_apply_call)
  have 2: "action_task action action_count (fst c2) (snd c2) s1
      = Inr (s1\<lparr>last_tick := snd c2, delay_count := 1\<rparr>)"
    using a st g by (simp add: gated_wait_call s1_def)
  have 3: "action_task action action_count (fst c3) (snd c3)
        (s1\<lparr>last_tick := snd c2, delay_count := 1\<rparr>)
      = Inr (s1\<lparr>last_tick := snd c3, delay_count := 2\<rparr>)"
    using a st g by (simp add: gated_wait_call s1_def)
  have 4: "action_task action action_count (fst c4) (snd c4)
        (s1\<lparr>last_tick := snd c3, delay_count := 2\<rparr>) = Inr s4"
    using a st g by (simp add: gated_wait_call s1_def s4_def)
  show ?thesis
    by (simp add: 1 2 3 4 bind_fault_def split: sum.splits)
qed


lemma unat_frame_index: "j \<le> 255 \<Longrightarrow> unat (of_nat j :: u8) = j"
  by (simp add: unat_of_nat)

lemma play_from:
  fixes j k :: nat
  assumes idx: "1 \<le> a" "a \<le> action_count" "a \<le> int (length action)"
    and row: "row = action ! nat (a - 1)"
    and sent: "k < length row" "row ! k \<noteq> []" "row ! k ! 0 = 0"
    and frames: "\<forall>i<k. 7 \<le> length (row ! i) \<and> row ! i ! 0 \<noteq> 0"
    and small: "k \<le> 255"
  shows "action_num s = a \<Longrightarrow> step s = 0 \<Longrightarrow> delay_count s = 0 \<Longrightarrow> num s = of_nat j
    \<Longrightarrow> j \<le> k \<Longrightarrow> length ts = 4 * (k - j) + 1 \<Longrightarrow> gate_open (last_tick s) ts
    \<Longrightarrow> \<exists>ss. drive action action_count ts s = Inr ss
          \<and> length ss = length ts
          \<and> action_num (last ss) = 0 \<and> step (last ss) = 0
          \<and> num (last ss) = 0 \<and> delay_count (last ss) = 0
          \<and> map extended_func_angles ss =
              concat (map (\<lambda>i. replicate 4 (frame_angles (row ! i))) [j..<k])
              @ [if j = k then extended_func_angles s else frame_angles (row ! (k - 1))]"
proof (induction "k - j" arbitrary: j s ts)
  case 0
  then have jk: "j = k" by simp
  from 0 obtain c where ts: "ts = [c]"
    by (cases ts) auto
  have u: "unat (num s) = k"
    using 0 jk small by (simp add: unat_frame_index)
  have "action_task action action_count (fst c) (snd c) s
      = Inr (s\<lparr>last_tick := snd c, num := 0, action_num := 0\<rparr>)"
    using idx sent 0 ts u row by (intro gated_sentinel_call) simp_all
  then show ?case
    using 0 jk ts by simp
next
  case (Suc n)
  then have jk: "j < k" by simp
  then have j255: "j \<le> 255" "Suc j \<le> 255" using small by simp_all
  have u: "unat (num s) = j"
    using Suc.prems j255 by (simp add: unat_frame_index)
  from Suc.prems Suc.hyps(2) have "length ts = Suc (Suc (Suc (Suc (4 * (k - Suc j) + 1))))"
    by simp
  then obtain c1 c2 c3 c4 cs where ts: "ts = c1 # c2 # c3 # c4 # cs"
    and cs: "length cs = 4 * (k - Suc j) + 1"
    by (auto simp: length_Suc_conv)
  define ang where "ang = frame_angles (row ! j)"
  define s1 where "s1 = s\<lparr>last_tick := snd c1, extended_func_angles := ang, step := 1\<rparr>"
  define s4 where "s4 = s\<lparr>last_tick := snd c4, extended_func_angles := ang, num := num s + 1\<rparr>"
  have fr: "7 \<le> length (row ! j)" "row ! j ! 0 \<noteq> 0" "j < length row"
    using frames jk sent by auto
  have d: "drive action action_count ts s =
     bind_fault (drive action action_count cs s4) (\<lambda>ss.
       Inr (s1 # s1\<lparr>last_tick := snd c2, delay_count := 1\<rparr>
               # s1\<lparr>last_tick := snd c3, delay_count := 2\<rparr> # s4 # ss))"
    unfolding ts s1_def s4_def ang_def
    using drive_frame [of s action_count action c1 c2 c3 c4 cs] idx Suc.prems fr u row ts
    by simp
  have g4: "gate_open (last_tick s4) cs"
    using Suc.prems ts by (simp add: s4_def)
  have n4: "num s4 = of_nat (Suc j)"
    using Suc.prems by (simp add: s4_def)
  have "\<exists>ss. drive action action_count cs s4 = Inr ss
          \<and> length ss = length cs
          \<and> action_num (last ss) = 0 \<and> step (last ss) = 0
          \<and> num (last ss) = 0 \<and> delay_count (last ss) = 0
          \<and> map extended_func_angles ss =
              concat (map (\<lambda>i. replicate 4 (frame_angles (row ! i))) [Suc j..<k])
              @ [if Suc j = k then extended_func_angles s4 else frame_angles (row ! (k - 1))]"
  proof (rule Suc.hyps(1))
    show "n = k - Suc j" using Suc.hyps(2) by simp
    show "action_num s4 = a" using Suc.prems by (simp add: s4_def)
    show "step s4 = 0" using Suc.prems by (simp add: s4_def)
    show "delay_count s4 = 0" using Suc.prems by (simp add: s4_def)
    show "num s4 = of_nat (Suc j)" by (rule n4)
    show "Suc j \<le> k" using jk by simp
    show "length cs = 4 * (k - Suc j) + 1" by (rule cs)
    show "gate_open (last_tick s4) cs" by (rule g4)
  qed
  then obtain ss where ss: "drive action action_count cs s4 = Inr ss"
    and len: "length ss = length cs"
    and fin: "action_num (last ss) = 0" "step (last ss) = 0"
      "num (last ss) = 0" "delay_count (last ss) = 0"
    and angs: "map extended_func_angles ss =
              concat (map (\<lambda>i. replicate 4 (frame_angles (row ! i))) [Suc j..<k])
              @ [if Suc j = k then extended_func_angles s4 else frame_angles (row ! (k - 1))]"
    by blast
  have ne: "ss \<noteq> []" using len cs by auto
  have last4: "(if Suc j = k then extended_func_angles s4 else frame_angles (row ! (k - 1)))
      = frame_angles (row ! (k - 1))"
    by (auto simp: s4_def ang_def)
  have upt: "[j..<k] = j # [Suc j..<k]"
    using jk by (simp add: upt_conv_Cons)
  have lts: "length ts = Suc (Suc (Suc (Suc (length cs))))"
    using ts by simp
  have full: "drive action action_count ts s =
      Inr (s1 # s1\<lparr>last_tick := snd c2, delay_count := 1\<rparr>
              # s1\<lparr>last_tick := snd c3, delay_count := 2\<rparr> # s4 # ss)"
    by (simp only: d ss bind_fault_Inr)
  show ?case
    unfolding full
    using jk ne len fin
    by (simp add: lts angs last4 upt s1_def s4_def ang_def eval_nat_numeral)
qed

section \<open>The WAIT state\<close>

text \<open>
  C5. In the WAIT state (\<open>step = 1\<close>) every call that passes the guard and the gate
  increments \<open>delay_count\<close>. When the incremented counter exceeds 2 the call sets
  the counter to 0, advances \<open>num\<close> by one and goes back to APPLY (\<open>step = 0\<close>).
  Otherwise the WAIT branch changes nothing else: the player keeps its angles,
  \<open>action_num\<close>, \<open>step\<close> and \<open>num\<close>. In both cases \<open>last_tick\<close> holds the new
  tick, which the gate stores before the switch on every call it lets through.
  The counter and \<open>num\<close> are 8-bit and wrap.
\<close>

theorem action_task_wait:
  assumes "action_num s \<noteq> 0" and "action_num s \<le> action_count"
    and "\<not> t_gate - last_tick s < 100" and "step s = 1"
  shows "action_task action action_count t_gate t_store s =
     Inr (if delay_count s + 1 > 2
          then s\<lparr>last_tick := t_store, delay_count := 0, num := num s + 1, step := 0\<rparr>
          else s\<lparr>last_tick := t_store, delay_count := delay_count s + 1\<rparr>)"
  using assms by (rule gated_wait_call)

theorem action_task_wait_witness:
  "action_task demo_table 1 400 401
     \<lparr>extended_func_angles = [10, 20, 30, 40, 50, 60], action_num = 1,
      last_tick = 300, step = 1, num = 0, delay_count = 2\<rparr>
   = Inr \<lparr>extended_func_angles = [10, 20, 30, 40, 50, 60], action_num = 1,
          last_tick = 401, step = 0, num = 1, delay_count = 0\<rparr>
   \<and> action_task demo_table 1 200 201
     \<lparr>extended_func_angles = [10, 20, 30, 40, 50, 60], action_num = 1,
      last_tick = 100, step = 1, num = 0, delay_count = 0\<rparr>
   = Inr \<lparr>extended_func_angles = [10, 20, 30, 40, 50, 60], action_num = 1,
          last_tick = 201, step = 1, num = 0, delay_count = 1\<rparr>"
  using
    action_task_wait [where action = demo_table and action_count = 1 and t_gate = 400
      and t_store = 401
      and s = "\<lparr>extended_func_angles = [10, 20, 30, 40, 50, 60], action_num = 1,
                last_tick = 300, step = 1, num = 0, delay_count = 2\<rparr>"]
    action_task_wait [where action = demo_table and action_count = 1 and t_gate = 200
      and t_store = 201
      and s = "\<lparr>extended_func_angles = [10, 20, 30, 40, 50, 60], action_num = 1,
                last_tick = 100, step = 1, num = 0, delay_count = 0\<rparr>"]
  by simp

section \<open>Writes and the sentinel\<close>

text \<open>
  C2. \<open>extended_func_angles\<close> is written only when \<open>action_num\<close> is not 0 on entry:
  with \<open>action_num = 0\<close> the call returns the player untouched, so a call after
  which the angles differ was entered with \<open>action_num \<noteq> 0\<close>. In the call that
  reaches the sentinel frame (the gate is passed in APPLY and
  \<open>action[action_num-1][num][0]\<close> is 0) \<open>num\<close> and \<open>action_num\<close> are set to 0 and
  the angles are not written; only the stored tick changes besides.
\<close>

theorem action_task_sentinel:
  "(action_num s = 0 \<longrightarrow> action_task action action_count t_gate t_store s = Inr s)
   \<and> (action_task action action_count t_gate t_store s = Inr s'
        \<and> extended_func_angles s' \<noteq> extended_func_angles s \<longrightarrow> action_num s \<noteq> 0)
   \<and> (action_num s \<noteq> 0 \<and> action_num s \<le> action_count
        \<and> \<not> t_gate - last_tick s < 100 \<and> step s = 0
        \<and> table_read action (action_num s - 1) (unat (num s)) 0 = Inr 0
      \<longrightarrow> action_task action action_count t_gate t_store s
            = Inr (s\<lparr>last_tick := t_store, num := 0, action_num := 0\<rparr>))"
  by (auto simp: action_task_def Let_def)

theorem action_task_sentinel_witness:
  "action_task demo_table 1 100 100 HW_ACTION_CTL_init = Inr HW_ACTION_CTL_init
   \<and> action_task demo_table 1 500 501
       \<lparr>extended_func_angles = [10, 20, 30, 40, 50, 60], action_num = 1,
        last_tick = 400, step = 0, num = 1, delay_count = 0\<rparr>
     = Inr \<lparr>extended_func_angles = [10, 20, 30, 40, 50, 60], action_num = 0,
            last_tick = 501, step = 0, num = 0, delay_count = 0\<rparr>"
  using
    action_task_sentinel [where s = HW_ACTION_CTL_init and action = demo_table
      and action_count = 1 and t_gate = 100 and t_store = 100]
    action_task_sentinel [where action = demo_table and action_count = 1
      and t_gate = 500 and t_store = 501
      and s = "\<lparr>extended_func_angles = [10, 20, 30, 40, 50, 60], action_num = 1,
                last_tick = 400, step = 0, num = 1, delay_count = 0\<rparr>"]
  by (simp add: HW_ACTION_CTL_init_def table_read_def demo_table_def)

section \<open>Playing a whole row\<close>

text \<open>
  C1, as the code has it. Let \<open>a\<close> be an action index with \<open>1 \<le> a \<le> action_count\<close>
  that is a row of the table, let frame \<open>k\<close> of that row be its first sentinel, with
  \<open>k \<le> 255\<close> (the frame index \<open>num\<close> is 8-bit), and let the \<open>k\<close> frames before it
  have their seven columns. If the player is at rest (\<open>step\<close>, \<open>num\<close> and
  \<open>delay_count\<close> are 0, as at start-up and after every completed action) when
  \<open>action_set a\<close> is called, then \<open>4k + 1\<close> calls of \<open>action_task\<close>, each passing the
  gate, all return; after the last one \<open>action_state_get\<close> is 0 and the player is at
  rest again. The angles seen after the successive calls are columns 1 to 6 of frame
  0 four times, then of frame 1 four times, and so on in increasing frame order up to
  frame \<open>k - 1\<close>; the last call leaves them as they are. Any further calls change
  nothing.
\<close>

theorem action_plays_row:
  fixes k :: nat
  assumes rest: "step s = 0" "num s = 0" "delay_count s = 0"
    and idx: "1 \<le> a" "a \<le> action_count" "a \<le> int (length action)"
    and row: "row = action ! nat (a - 1)"
    and sent: "k < length row" "row ! k \<noteq> []" "row ! k ! 0 = 0"
    and frames: "\<forall>j<k. 7 \<le> length (row ! j) \<and> row ! j ! 0 \<noteq> 0"
    and small: "k \<le> 255"
    and ticks: "length ts = 4 * k + 1" "gate_open (last_tick s) ts"
  shows "\<exists>ss. drive action action_count ts (action_set s a) = Inr ss
      \<and> length ss = 4 * k + 1
      \<and> action_state_get (last ss) = 0
      \<and> step (last ss) = 0 \<and> num (last ss) = 0 \<and> delay_count (last ss) = 0
      \<and> map extended_func_angles ss =
          concat (map (\<lambda>j. replicate 4 (frame_angles (row ! j))) [0..<k])
          @ [if k = 0 then extended_func_angles s else frame_angles (row ! (k - 1))]
      \<and> (\<forall>us. drive action action_count us (last ss) = Inr (replicate (length us) (last ss)))"
proof -
  have "\<exists>ss. drive action action_count ts (action_set s a) = Inr ss
          \<and> length ss = length ts
          \<and> action_num (last ss) = 0 \<and> step (last ss) = 0
          \<and> num (last ss) = 0 \<and> delay_count (last ss) = 0
          \<and> map extended_func_angles ss =
              concat (map (\<lambda>i. replicate 4 (frame_angles (row ! i))) [0..<k])
              @ [if 0 = k then extended_func_angles (action_set s a)
                 else frame_angles (row ! (k - 1))]"
    using idx row sent frames small
  proof (rule play_from)
    show "action_num (action_set s a) = a" by (simp add: action_set_def)
    show "step (action_set s a) = 0" using rest by (simp add: action_set_def)
    show "delay_count (action_set s a) = 0" using rest by (simp add: action_set_def)
    show "num (action_set s a) = of_nat 0" using rest by (simp add: action_set_def)
    show "0 \<le> k" by simp
    show "length ts = 4 * (k - 0) + 1" using ticks by simp
    show "gate_open (last_tick (action_set s a)) ts" using ticks by (simp add: action_set_def)
  qed
  then obtain ss where ss: "drive action action_count ts (action_set s a) = Inr ss"
    and len: "length ss = length ts"
    and fin: "action_num (last ss) = 0" "step (last ss) = 0"
      "num (last ss) = 0" "delay_count (last ss) = 0"
    and angs: "map extended_func_angles ss =
              concat (map (\<lambda>i. replicate 4 (frame_angles (row ! i))) [0..<k])
              @ [if 0 = k then extended_func_angles (action_set s a)
                 else frame_angles (row ! (k - 1))]"
    by blast
  show ?thesis
    using ss len fin angs ticks(1) drive_idle [OF fin(1)]
    by (simp add: action_state_get_def action_set_def)
qed

theorem action_plays_row_witness:
  "\<exists>ss. drive demo_table 1 [(100, 100), (200, 200), (300, 300), (400, 400), (500, 500)]
          (action_set HW_ACTION_CTL_init 1) = Inr ss
      \<and> length ss = 5
      \<and> action_state_get (last ss) = 0
      \<and> map extended_func_angles ss =
          [[10, 20, 30, 40, 50, 60], [10, 20, 30, 40, 50, 60], [10, 20, 30, 40, 50, 60],
           [10, 20, 30, 40, 50, 60], [10, 20, 30, 40, 50, 60]]"
  using action_plays_row [where s = HW_ACTION_CTL_init and a = 1 and action_count = 1
      and action = demo_table and row = "demo_table ! 0" and k = 1
      and ts = "[(100, 100), (200, 200), (300, 300), (400, 400), (500, 500)]"]
  by (simp add: HW_ACTION_CTL_init_def demo_table_def frame_angles_def action_task_def
      table_read_def action_set_def action_state_get_def)

text \<open>
  C1 as stated puts no condition on the player at the time of \<open>action_set\<close>.
  \<open>action_set\<close> does not reset \<open>num\<close>: called after four calls into action 1, when
  \<open>num\<close> is 1, \<open>action_set 2\<close> makes the next call read frame 1 of action 2, the
  sentinel. The player goes idle and frame 0 of action 2, which precedes the
  sentinel and holds the angles 10 to 60, is never copied.
\<close>

theorem action_set_mid_sequence_skips_frame:
  "drive two_actions 2 [(100, 100), (200, 200), (300, 300), (400, 400)]
      (action_set HW_ACTION_CTL_init 1)
    = Inr [\<lparr>extended_func_angles = [1, 2, 3, 4, 5, 6], action_num = 1,
             last_tick = 100, step = 1, num = 0, delay_count = 0\<rparr>,
           \<lparr>extended_func_angles = [1, 2, 3, 4, 5, 6], action_num = 1,
             last_tick = 200, step = 1, num = 0, delay_count = 1\<rparr>,
           \<lparr>extended_func_angles = [1, 2, 3, 4, 5, 6], action_num = 1,
             last_tick = 300, step = 1, num = 0, delay_count = 2\<rparr>,
           \<lparr>extended_func_angles = [1, 2, 3, 4, 5, 6], action_num = 1,
             last_tick = 400, step = 0, num = 1, delay_count = 0\<rparr>]
   \<and> gate_open 400 [(500, 500), (600, 600), (700, 700)]
   \<and> drive two_actions 2 [(500, 500), (600, 600), (700, 700)]
      (action_set \<lparr>extended_func_angles = [1, 2, 3, 4, 5, 6], action_num = 1,
                   last_tick = 400, step = 0, num = 1, delay_count = 0\<rparr> 2)
    = Inr [\<lparr>extended_func_angles = [1, 2, 3, 4, 5, 6], action_num = 0,
             last_tick = 500, step = 0, num = 0, delay_count = 0\<rparr>,
           \<lparr>extended_func_angles = [1, 2, 3, 4, 5, 6], action_num = 0,
             last_tick = 500, step = 0, num = 0, delay_count = 0\<rparr>,
           \<lparr>extended_func_angles = [1, 2, 3, 4, 5, 6], action_num = 0,
             last_tick = 500, step = 0, num = 0, delay_count = 0\<rparr>]
   \<and> two_actions ! 1 ! 0 ! 0 \<noteq> 0
   \<and> frame_angles (two_actions ! 1 ! 0) = [10, 20, 30, 40, 50, 60]"
  by (simp add: action_task_def action_set_def HW_ACTION_CTL_init_def table_read_def
      two_actions_def frame_angles_def)

text \<open>
  The bound \<open>k \<le> 255\<close> is needed as well. In a row of 256 frames followed by the
  sentinel, \<open>num\<close> wraps from 255 to 0 before it reaches the sentinel: the action
  never completes, however long the player is driven.
\<close>

lemma long_row_read:
  "c < 7 \<Longrightarrow> table_read long_row_table 0 (unat (n :: u8)) c = Inr (if c = 0 then 1 else 0)"
proof -
  assume c: "c < 7"
  have n: "unat n < 256" using unsigned_less [of n, where ?'a = nat] by simp
  have "(replicate 256 [1, 0, 0, 0, 0, 0, 0 :: u8] @ [[0, 0, 0, 0, 0, 0, 0]]) ! unat n
      = [1, 0, 0, 0, 0, 0, 0]"
    using n by (simp add: nth_append)
  moreover have "c \<in> {0, 1, 2, 3, 4, 5, 6}" using c by auto
  ultimately show ?thesis
    using n by (auto simp: table_read_def long_row_table_def)
qed

lemma long_row_step:
  assumes "action_num s = 1"
  shows "\<exists>s'. action_task long_row_table 1 t1 t2 s = Inr s' \<and> action_num s' = 1"
  using assms by (simp add: action_task_def Let_def long_row_read)

lemma num_wraps_on_long_row:
  "action_num s = 1 \<Longrightarrow>
   \<exists>ss. drive long_row_table 1 ts s = Inr ss \<and> length ss = length ts
      \<and> list_all (\<lambda>s'. action_state_get s' = 1) ss"
proof (induction ts arbitrary: s)
  case Nil
  then show ?case by simp
next
  case (Cons c cs)
  from long_row_step [OF Cons.prems] obtain s' where
    s': "action_task long_row_table 1 (fst c) (snd c) s = Inr s'" "action_num s' = 1"
    by blast
  from Cons.IH [OF s'(2)] obtain ss where
    "drive long_row_table 1 cs s' = Inr ss" "length ss = length cs"
    "list_all (\<lambda>s'. action_state_get s' = 1) ss"
    by blast
  then show ?case using s' by (simp add: action_state_get_def)
qed

lemma long_row_never_completes:
  "\<not> (\<exists>ts ss. drive long_row_table 1 ts (action_set HW_ACTION_CTL_init 1) = Inr ss
        \<and> ss \<noteq> [] \<and> action_state_get (last ss) = 0)"
proof
  assume "\<exists>ts ss. drive long_row_table 1 ts (action_set HW_ACTION_CTL_init 1) = Inr ss
        \<and> ss \<noteq> [] \<and> action_state_get (last ss) = 0"
  then obtain ts ss where
    d: "drive long_row_table 1 ts (action_set HW_ACTION_CTL_init 1) = Inr ss"
    and ne: "ss \<noteq> []" and z: "action_state_get (last ss) = 0"
    by blast
  have "action_num (action_set HW_ACTION_CTL_init 1) = 1"
    by (simp add: action_set_def)
  from num_wraps_on_long_row [OF this, of ts] d
  have "list_all (\<lambda>s'. action_state_get s' = 1) ss" by simp
  with ne have "action_state_get (last ss) = 1"
    by (simp add: list_all_iff)
  with z show False by simp
qed

section \<open>The single-pose player\<close>

text \<open>
  C6. In the single-pose variant, for every \<open>action_num\<close> with
  \<open>1 \<le> action_num \<le> action_count\<close> that is a row of the table with its seven columns,
  one call of \<open>action_task\<close> copies the selected row's six angles (columns 1 to 6 of
  \<open>action[action_num-1]\<close>) into \<open>extended_func_angles\<close> and sets \<open>action_num\<close> to 0.
  There is no gate and no wait: nothing else of the player changes.
\<close>

theorem action_task_simple_copies_row:
  assumes "1 \<le> action_num s" and "action_num s \<le> action_count"
    and "action_num s \<le> int (length action)"
    and "7 \<le> length (action ! nat (action_num s - 1))"
  shows "action_task_simple action action_count s =
     Inr (s\<lparr>extended_func_angles := frame_angles (action ! nat (action_num s - 1)),
            action_num := 0\<rparr>)"
  using assms frame_angles_nth [OF assms(4)]
  by (simp add: action_task_simple_def pose_read_def Let_def)

theorem action_task_simple_copies_row_witness:
  "action_task_simple [[1, 10, 20, 30, 40, 50, 60], [1, 0, 0, 0, 0, 0, 90]] 2
     (action_set HW_ACTION_CTL_init 1)
   = Inr (HW_ACTION_CTL_init\<lparr>extended_func_angles := [10, 20, 30, 40, 50, 60]\<rparr>)"
  using action_task_simple_copies_row
    [where action = "[[1, 10, 20, 30, 40, 50, 60], [1, 0, 0, 0, 0, 0, 90]]"
       and action_count = 2 and s = "action_set HW_ACTION_CTL_init 1"]
  by (simp add: action_set_def HW_ACTION_CTL_init_def frame_angles_def)

section \<open>Requests outside the table\<close>

text \<open>
  C10. The guard of \<open>action_task\<close> tests \<open>action_num \<noteq> 0\<close> and
  \<open>action_num \<le> action_count\<close> only. With a count that is not negative, every
  negative value recorded by \<open>action_set\<close> satisfies it, and the APPLY step (a call
  that passes the gate with \<open>step = 0\<close>) reaches the access
  \<open>action[action_num-1][num][0]\<close> with the negative row index \<open>action_num - 1\<close>:
  nothing checks the lower bound. The single-pose variant has the same guard and
  reaches \<open>action[action_num-1][1]\<close> in the same way.
\<close>

theorem action_task_negative_request:
  assumes "n < 0" and "0 \<le> action_count"
    and "\<not> t_gate - last_tick s < 100" and "step s = 0"
  shows "action_num (action_set s n) \<noteq> 0 \<and> action_num (action_set s n) \<le> action_count
    \<and> action_task action action_count t_gate t_store (action_set s n)
        = Inl (TableIndex (n - 1) (unat (num s)) 0)
    \<and> action_task_simple pose action_count (action_set s n) = Inl (TableIndex (n - 1) 0 1)
    \<and> n - 1 < 0"
  using assms
  by (simp add: action_task_def action_task_simple_def action_set_def table_read_def
      pose_read_def Let_def)

theorem action_task_negative_request_witness:
  "action_task demo_table 1 100 100 (action_set HW_ACTION_CTL_init (- 1))
     = Inl (TableIndex (- 2) 0 0)
   \<and> action_task_simple [[1, 10, 20, 30, 40, 50, 60]] 1 (action_set HW_ACTION_CTL_init (- 1))
     = Inl (TableIndex (- 2) 0 1)"
  using action_task_negative_request
    [where n = "- 1" and action_count = 1 and t_gate = 100 and t_store = 100
       and s = HW_ACTION_CTL_init and action = demo_table
       and pose = "[[1, 10, 20, 30, 40, 50, 60]]"]
  by (simp add: HW_ACTION_CTL_init_def)

text \<open>
  What does hold of requests outside \<open>1..action_count\<close>: \<open>action_set\<close> stores any
  value, and a request of 0 or above \<open>action_count\<close> makes \<open>action_task\<close> return the
  player untouched without reading the table.
\<close>

lemma action_set_stores: "action_state_get (action_set s n) = n"
  by (simp add: action_set_def action_state_get_def)

lemma action_task_request_above:
  "n = 0 \<or> action_count < n \<Longrightarrow>
   action_task action action_count t_gate t_store (action_set s n) = Inr (action_set s n)"
  by (auto simp: action_task_def action_set_def)

text \<open>
  C9. The request \<open>- 1\<close> is outside \<open>1..action_count\<close>, and \<open>action_set\<close> records
  it. On the player as constructed, with a table of one action, the next call of
  \<open>action_task\<close> that passes the gate does not leave the player alone: it passes the
  guard and reads \<open>action[-2][0][0]\<close>, outside the table.
\<close>

theorem action_task_request_minus_one:
  "action_state_get (action_set HW_ACTION_CTL_init (- 1)) = - 1
   \<and> action_task demo_table 1 100 100 (action_set HW_ACTION_CTL_init (- 1))
     = Inl (TableIndex (- 2) 0 0)"
  by (simp add: action_task_def action_set_def action_state_get_def HW_ACTION_CTL_init_def
      table_read_def demo_table_def)

section \<open>The read primitive\<close>

text \<open>
  The loop of \<open>WireReadDataArray\<close> in closed form, for a buffer at least as long as
  the length asked for: it stores the bytes that arrive at their positions, and
  returns their number, or \<open>- 1\<close> when more than \<open>len\<close> arrive.
\<close>

lemma unat_next:
  fixes i :: u8
  assumes "unat i < len" and "len < 256"
  shows "unat (i + 1) = Suc (unat i)"
  using assms by (simp add: unat_word_ariths)

lemma WireReadDataArray_loop_result:
  assumes "len \<le> length val" and "len < 256" and "unat i \<le> len"
  shows "WireReadDataArray_loop bs i len val =
     Inr (if len - unat i < length bs
          then (- 1, take (unat i) val @ take (len - unat i) bs @ drop len val)
          else (int (unat i + length bs),
                take (unat i) val @ bs @ drop (unat i + length bs) val))"
  using assms
proof (induction bs arbitrary: i val)
  case Nil
  then show ?case by simp
next
  case (Cons b bs)
  show ?case
  proof (cases "len \<le> unat i")
    case True
    with Cons.prems have "unat i = len" by simp
    then show ?thesis by simp
  next
    case False
    then have lt: "unat i < len" by simp
    have nx: "unat (i + 1) = Suc (unat i)"
      using lt Cons.prems(2) by (rule unat_next)
    have tk: "take (Suc (unat i)) (val[unat i := b]) = take (unat i) val @ [b]"
      using lt Cons.prems(1) by (simp add: take_Suc_conv_app_nth)
    have "WireReadDataArray_loop (b # bs) i len val
        = WireReadDataArray_loop bs (i + 1) len (val[unat i := b])"
      using lt Cons.prems(1) by simp
    also have "\<dots> = Inr (if len - unat (i + 1) < length bs
          then (- 1, take (unat (i + 1)) (val[unat i := b])
                   @ take (len - unat (i + 1)) bs @ drop len (val[unat i := b]))
          else (int (unat (i + 1) + length bs),
                take (unat (i + 1)) (val[unat i := b]) @ bs
                  @ drop (unat (i + 1) + length bs) (val[unat i := b])))"
      using Cons.prems lt nx by (intro Cons.IH) simp_all
    also have "\<dots> = Inr (if len - unat i < length (b # bs)
          then (- 1, take (unat i) val @ take (len - unat i) (b # bs) @ drop len val)
          else (int (unat i + length (b # bs)),
                take (unat i) val @ (b # bs) @ drop (unat i + length (b # bs)) val))"
      using lt by (auto simp: nx tk take_Cons' Suc_diff_Suc)
    finally show ?thesis .
  qed
qed

lemma WireReadDataArray_four:
  assumes "length val = 4"
  shows "WireReadDataArray w reg val 4 =
     Inr (if end_status w reg \<noteq> 0
          then (w\<lparr>traffic := traffic w @ [Transmit ESP32CAM_ADDR reg]\<rparr>, - 1, val)
          else (w\<lparr>traffic := traffic w
                    @ [Transmit ESP32CAM_ADDR reg, RequestFrom ESP32CAM_ADDR 4]\<rparr>,
                if 4 < length (reply w reg) then - 1 else int (length (reply w reg)),
                take 4 (reply w reg) @ drop (length (reply w reg)) val))"
proof -
  have "WireReadDataArray_loop (reply w reg) 0 4 val =
     Inr (if 4 - unat (0 :: u8) < length (reply w reg)
          then (- 1, take (unat (0 :: u8)) val @ take (4 - unat (0 :: u8)) (reply w reg)
                  @ drop 4 val)
          else (int (unat (0 :: u8) + length (reply w reg)),
                take (unat (0 :: u8)) val @ reply w reg
                  @ drop (unat (0 :: u8) + length (reply w reg)) val))"
    using assms by (intro WireReadDataArray_loop_result) simp_all
  then have "WireReadDataArray_loop (reply w reg) 0 4 val =
     Inr (if 4 < length (reply w reg) then - 1 else int (length (reply w reg)),
          take 4 (reply w reg) @ drop (length (reply w reg)) val)"
    using assms by (simp split: if_splits)
  then show ?thesis
    by (simp add: WireReadDataArray_def WireWriteByte_def Let_def)
qed

lemma read_count_eq:
  "read_count w reg =
     (if end_status w reg \<noteq> 0 \<or> 4 < length (reply w reg) then - 1
      else int (length (reply w reg)))"
  by (simp add: read_count_def WireReadDataArray_four)

lemma detected_eq:
  "detected w reg \<longleftrightarrow>
     end_status w reg = 0 \<and> length (reply w reg) = 4 \<and> reply w reg ! 2 \<noteq> 0"
  by (auto simp: detected_def read_count_def width_byte_def WireReadDataArray_four
      word_greater_zero_iff)

lemma read_ops_traffic [simp]: "read_ops (w\<lparr>traffic := t\<rparr>) reg = read_ops w reg"
  by (simp add: read_ops_def)

lemma read_ops_serial [simp]: "read_ops (w\<lparr>serial := t\<rparr>) reg = read_ops w reg"
  by (simp add: read_ops_def)

lemma read_count_traffic [simp]: "read_count (w\<lparr>traffic := t\<rparr>) reg = read_count w reg"
  by (simp add: read_count_eq)

lemma read_count_serial [simp]: "read_count (w\<lparr>serial := t\<rparr>) reg = read_count w reg"
  by (simp add: read_count_eq)

lemma WireReadDataArray_as:
  assumes "length val = 4"
  shows "WireReadDataArray w reg val 4 =
     Inr (w\<lparr>traffic := traffic w @ read_ops w reg\<rparr>, read_count w reg, read_buf w reg val)"
  using assms
  by (simp add: WireReadDataArray_four read_ops_def read_count_eq read_buf_def)

lemma hit_iff:
  "(read_count w reg = 4 \<and> 0 < read_buf w reg val ! 2) \<longleftrightarrow> detected w reg"
  by (auto simp: detected_eq read_count_eq read_buf_def word_greater_zero_iff nth_append
      split: if_splits)

lemma read_buf_traffic [simp]: "read_buf (w\<lparr>traffic := t\<rparr>) reg = read_buf w reg"
  by (simp add: read_buf_def fun_eq_iff)

lemma read_buf_serial [simp]: "read_buf (w\<lparr>serial := t\<rparr>) reg = read_buf w reg"
  by (simp add: read_buf_def fun_eq_iff)

section \<open>Colour detection\<close>

text \<open>
  C3. \<open>colorDetect\<close> reads registers \<open>0x00\<close>, \<open>0x01\<close>, \<open>0x02\<close> in that order and
  stops at the first hit. If the read of register \<open>0x00\<close> returns exactly 4 bytes
  with a nonzero width byte (index 2) the result is 1 and that read is the only one
  on the bus, whatever the other two channels hold. Otherwise the result is 2 on the
  same condition for register \<open>0x01\<close>, after two reads; otherwise all three reads
  are made and the result is 3 on that condition for register \<open>0x02\<close>, and 0 when
  no channel meets it, as when all three report zero width. The contents of the
  uninitialised local array do not matter.
\<close>

theorem colorDetect_priority:
  "colorDetect w junk = Inr
     (if detected w 0x00
        then (w\<lparr>traffic := traffic w @ read_ops w 0x00\<rparr>, 1)
      else if detected w 0x01
        then (w\<lparr>traffic := traffic w @ read_ops w 0x00 @ read_ops w 0x01\<rparr>, 2)
      else (w\<lparr>traffic := traffic w @ read_ops w 0x00 @ read_ops w 0x01 @ read_ops w 0x02\<rparr>,
            if detected w 0x02 then 3 else 0))"
  by (simp add: colorDetect_def WireReadDataArray_as hit_iff Let_def)

theorem colorDetect_priority_witness:
  "colorDetect echo_bus no_junk
     = Inr (echo_bus\<lparr>traffic := [Transmit ESP32CAM_ADDR 0, RequestFrom ESP32CAM_ADDR 4]\<rparr>, 1)
   \<and> colorDetect no_width_bus no_junk
     = Inr (no_width_bus\<lparr>traffic :=
              [Transmit ESP32CAM_ADDR 0, RequestFrom ESP32CAM_ADDR 4,
               Transmit ESP32CAM_ADDR 1, RequestFrom ESP32CAM_ADDR 4,
               Transmit ESP32CAM_ADDR 2, RequestFrom ESP32CAM_ADDR 4]\<rparr>, 0)"
  using colorDetect_priority [of echo_bus no_junk] colorDetect_priority [of no_width_bus no_junk]
  by (simp add: detected_eq read_ops_def echo_bus_def no_width_bus_def)

section \<open>Colour position\<close>

text \<open>
  C7. Round trip through \<open>color_position\<close>: if the write of the register address
  succeeds and the camera returns exactly the four bytes \<open>[x, y, wd, h]\<close> with
  \<open>wd > 0\<close>, then \<open>color_position\<close> returns true and the caller's four-byte buffer
  holds exactly \<open>[x, y, wd, h]\<close>.
\<close>

theorem color_position_round_trip:
  assumes "length buf = 4" and "end_status w 0x01 = 0"
    and "reply w 0x01 = [x, y, wd, h]" and "0 < wd"
  shows "color_position w buf =
     Inr (w\<lparr>traffic := traffic w
              @ [Transmit ESP32CAM_ADDR 0x01, RequestFrom ESP32CAM_ADDR 4]\<rparr>,
          True, [x, y, wd, h])"
  using assms by (simp add: color_position_def WireReadDataArray_four)

theorem color_position_round_trip_witness:
  "color_position echo_bus [0, 0, 0, 0] =
     Inr (echo_bus\<lparr>traffic := [Transmit ESP32CAM_ADDR 1, RequestFrom ESP32CAM_ADDR 4]\<rparr>,
          True, [5, 6, 7, 8])"
  using color_position_round_trip [where w = echo_bus and buf = "[0, 0, 0, 0]"
      and x = 5 and y = 6 and wd = 7 and h = 8]
  by (simp add: echo_bus_def)

text \<open>The same holds of the variant that reads register \<open>0x02\<close>.\<close>

lemma color_position_trace_round_trip:
  assumes "length buf = 4" and "end_status w 0x02 = 0"
    and "reply w 0x02 = [x, y, wd, h]" and "0 < wd"
  shows "color_position_trace w buf =
     Inr (w\<lparr>traffic := traffic w
              @ [Transmit ESP32CAM_ADDR 0x02, RequestFrom ESP32CAM_ADDR 4]\<rparr>,
          True, [x, y, wd, h])"
  using assms by (simp add: color_position_trace_def WireReadDataArray_four)

section \<open>Failed reads\<close>

text \<open>
  C8, as the code has it. Whenever the read underlying \<open>faceDetect\<close> or
  \<open>color_position\<close> returns a byte count other than 4 (the failure value \<open>- 1\<close> or
  a short read), the function returns false. \<open>faceDetect\<close> reads into a local array
  and hands no buffer back. The buffer given to \<open>color_position\<close> is left as it was
  when the write of the register address fails; otherwise it holds the bytes that
  arrived, at most four, followed by its own old bytes from that position on, so it
  is untouched only if no byte arrived.
\<close>

theorem failed_read_returns_false:
  assumes "length buf = 4" and "read_count w 0x01 \<noteq> 4"
  shows "faceDetect w junk =
      Inr (w\<lparr>traffic := traffic w @ read_ops w 0x01,
             serial := serial w @ ''face '' @ '' 0'' @ CRLF\<rparr>, False)
    \<and> color_position w buf =
      Inr (w\<lparr>traffic := traffic w @ read_ops w 0x01\<rparr>, False,
           if end_status w 0x01 \<noteq> 0 then buf
           else take 4 (reply w 0x01) @ drop (length (reply w 0x01)) buf)"
  using assms
  by (simp add: faceDetect_def color_position_def WireReadDataArray_as read_buf_def Let_def)

theorem failed_read_returns_false_witness:
  "read_count short_reply_bus 0x01 = 2
   \<and> faceDetect short_reply_bus no_junk =
      Inr (short_reply_bus\<lparr>traffic := [Transmit ESP32CAM_ADDR 1, RequestFrom ESP32CAM_ADDR 4],
             serial := ''face  0'' @ CRLF\<rparr>, False)
   \<and> color_position short_reply_bus [9, 9, 9, 9] =
      Inr (short_reply_bus\<lparr>traffic := [Transmit ESP32CAM_ADDR 1, RequestFrom ESP32CAM_ADDR 4]\<rparr>,
           False, [1, 2, 9, 9])"
  using failed_read_returns_false [where w = short_reply_bus and buf = "[9, 9, 9, 9]"
      and junk = no_junk]
  by (simp add: read_count_eq read_ops_def short_reply_bus_def)

text \<open>
  C8 as stated says that no byte of the buffer is modified by a failed call. The
  loop stores each byte as it arrives, before the count is known: a reply of two
  bytes makes \<open>color_position\<close> return false with the first two bytes of the
  caller's buffer overwritten.
\<close>

theorem color_position_short_read_overwrites:
  "WireReadDataArray short_reply_bus 0x01 [9, 9, 9, 9] 4 =
      Inr (short_reply_bus\<lparr>traffic := [Transmit ESP32CAM_ADDR 1, RequestFrom ESP32CAM_ADDR 4]\<rparr>,
           2, [1, 2, 9, 9])
   \<and> color_position short_reply_bus [9, 9, 9, 9] =
      Inr (short_reply_bus\<lparr>traffic := [Transmit ESP32CAM_ADDR 1, RequestFrom ESP32CAM_ADDR 4]\<rparr>,
           False, [1, 2, 9, 9])"
  by (simp add: color_position_def WireReadDataArray_def WireWriteByte_def
      short_reply_bus_def Let_def)

end
